theory Spec2Isabelle
  imports Complex_Main "HOL-Library.Word"
begin

unbundle bit_operations_syntax

section \<open>Data model of minhash.go\<close>

type_synonym byte = "8 word"
type_synonym uint64 = "64 word"
type_synonym int64 = "64 word"   \<comment> \<open>two's complement, read through \<open>sint\<close>\<close>

text \<open>
  The error values the package can hand back: the two \<^verbatim>\<open>io\<close> errors that
  \<^verbatim>\<open>binary.Read\<close> passes on from \<^verbatim>\<open>io.ReadFull\<close>, and the two
  \<^verbatim>\<open>errors.New\<close> values of \<^verbatim>\<open>SigMatches\<close> and \<^verbatim>\<open>Jaccard\<close>.
\<close>

datatype error =
    EOF
  | ErrUnexpectedEOF
  | ErrSigSize      \<comment> \<open>"CountEquals cannot be used for signatures of different size"\<close>
  | ErrSeed         \<comment> \<open>"Cannot compute Minhashes with different seed"\<close>

text \<open>The number of bytes in a hash value (\<^verbatim>\<open>const hashValueSize = 8\<close>).\<close>

definition hashValueSize :: nat where
  "hashValueSize = 8"

section \<open>encoding/binary, big endian\<close>

text \<open>
  \<^verbatim>\<open>binary.BigEndian.Uint64\<close>: the OR of the eight bytes, \<^verbatim>\<open>b[0]\<close> shifted
  to the top. \<^verbatim>\<open>binary.BigEndian.PutUint64\<close>: the eight bytes of a value, most
  significant first.
\<close>

definition Uint64 :: "byte list \<Rightarrow> uint64" where
  "Uint64 b =
     ucast (b ! 7) OR push_bit 8 (ucast (b ! 6)) OR push_bit 16 (ucast (b ! 5)) OR
     push_bit 24 (ucast (b ! 4)) OR push_bit 32 (ucast (b ! 3)) OR
     push_bit 40 (ucast (b ! 2)) OR push_bit 48 (ucast (b ! 1)) OR
     push_bit 56 (ucast (b ! 0))"

definition PutUint64 :: "uint64 \<Rightarrow> byte list" where
  "PutUint64 v =
     [ucast (drop_bit 56 v), ucast (drop_bit 48 v), ucast (drop_bit 40 v),
      ucast (drop_bit 32 v), ucast (drop_bit 24 v), ucast (drop_bit 16 v),
      ucast (drop_bit 8 v), ucast v]"

text \<open>
  \<^verbatim>\<open>binary.Read(buf, binary.BigEndian, &v)\<close> on a \<^verbatim>\<open>bytes.Reader\<close>, the
  reader being the bytes not yet consumed. \<^verbatim>\<open>io.ReadFull\<close> for eight bytes gives
  \<^verbatim>\<open>io.EOF\<close> when nothing is left, \<^verbatim>\<open>io.ErrUnexpectedEOF\<close> when fewer
  than eight bytes are left, and otherwise the value and the advanced reader.
\<close>

definition binary_Read :: "byte list \<Rightarrow> error + (uint64 \<times> byte list)" where
  "binary_Read r =
     (if r = [] then Inl EOF
      else if length r < 8 then Inl ErrUnexpectedEOF
      else Inr (Uint64 (take 8 r), drop 8 r))"

text \<open>
  \<^verbatim>\<open>binary.Write(buf, binary.BigEndian, v)\<close> on a \<^verbatim>\<open>bytes.Buffer\<close>: the
  eight bytes of \<^verbatim>\<open>v\<close> are appended.
\<close>

definition binary_Write :: "byte list \<Rightarrow> uint64 \<Rightarrow> byte list" where
  "binary_Write buf v = buf @ PutUint64 v"

section \<open>Serialisation of signatures\<close>

text \<open>
  \<^verbatim>\<open>SigToBytes\<close>: a fresh buffer, one \<^verbatim>\<open>binary.Write\<close> per value.
\<close>

definition SigToBytes :: "uint64 list \<Rightarrow> byte list" where
  "SigToBytes sig = foldl binary_Write [] sig"

text \<open>
  \<^verbatim>\<open>BytesToSig\<close>: \<^verbatim>\<open>size := len(data) / hashValueSize\<close>, a slice of
  \<^verbatim>\<open>size\<close> zeros, and for each index \<^verbatim>\<open>i\<close> of it one
  \<^verbatim>\<open>binary.Read\<close>, whose error ends the function and whose value is stored at
  \<^verbatim>\<open>sig[i]\<close>.
\<close>

fun BytesToSig_loop :: "nat list \<Rightarrow> byte list \<Rightarrow> uint64 list \<Rightarrow> error + uint64 list" where
  "BytesToSig_loop [] buf sig = Inr sig"
| "BytesToSig_loop (i # is) buf sig =
     (case binary_Read buf of
        Inl err \<Rightarrow> Inl err
      | Inr (v, buf') \<Rightarrow> BytesToSig_loop is buf' (sig[i := v]))"

definition BytesToSig :: "byte list \<Rightarrow> error + uint64 list" where
  "BytesToSig data =
     (let size = length data div hashValueSize;
          sig = replicate size 0
      in BytesToSig_loop [0..<size] data sig)"

text \<open>The bytes \<open>[8 * i, 8 * i + 8)\<close> of a buffer.\<close>

definition chunk :: "byte list \<Rightarrow> nat \<Rightarrow> byte list" where
  "chunk data i = take 8 (drop (8 * i) data)"

section \<open>Counting matches\<close>

text \<open>
  \<^verbatim>\<open>SigMatches\<close>: the length check, then the loop
  \<^verbatim>\<open>for i, v1 := range sig1 { v2 := sig2[i]; if v1 == v2 { count++ } }\<close>.
  The counter is a Go \<^verbatim>\<open>int\<close>; it never exceeds the length of a slice, so it
  cannot overflow and is modelled as \<open>int\<close>.
\<close>

fun SigMatches_loop :: "(nat \<times> uint64) list \<Rightarrow> uint64 list \<Rightarrow> int \<Rightarrow> int" where
  "SigMatches_loop [] sig2 count = count"
| "SigMatches_loop ((i, v1) # rest) sig2 count =
     (let v2 = sig2 ! i
      in SigMatches_loop rest sig2 (if v1 = v2 then count + 1 else count))"

definition SigMatches :: "uint64 list \<Rightarrow> uint64 list \<Rightarrow> error + int" where
  "SigMatches sig1 sig2 =
     (if length sig1 \<noteq> length sig2 then Inl ErrSigSize
      else Inr (SigMatches_loop (enumerate 0 sig1) sig2 0))"

section \<open>Panics\<close>

text \<open>
  A Go call either returns or panics. A panic unwinds the stack and, unless some caller
  recovers it, ends the program; it is not an \<^verbatim>\<open>error\<close> value.
\<close>

datatype 'a outcome = Returned 'a | Panicked string

section \<open>hash/fnv: 64-bit FNV-1a\<close>

definition offset64 :: uint64 where
  "offset64 = 14695981039346656037"

definition prime64 :: uint64 where
  "prime64 = 1099511628211"

text \<open>
  The state of a \<^verbatim>\<open>fnv.New64a()\<close> object is its running hash.
  \<^verbatim>\<open>Write\<close>: \<^verbatim>\<open>hash ^= uint64(c); hash *= prime64\<close> for every byte.
\<close>

definition New64a :: uint64 where
  "New64a = offset64"

definition fnv_Reset :: "uint64 \<Rightarrow> uint64" where
  "fnv_Reset s = offset64"

definition fnv_Write :: "uint64 \<Rightarrow> byte list \<Rightarrow> uint64" where
  "fnv_Write s data = foldl (\<lambda>hash c. (hash XOR ucast c) * prime64) s data"

definition fnv_Sum64 :: "uint64 \<Rightarrow> uint64" where
  "fnv_Sum64 s = s"

section \<open>The store of objects\<close>

text \<open>
  A \<^verbatim>\<open>*Minhash\<close> is a pointer structure. Behind it are objects that calls mutate in
  place: the generator \<^verbatim>\<open>r\<close>, the hash objects \<^verbatim>\<open>fnv1\<close> and \<^verbatim>\<open>fnv2\<close>, and the
  backing array of \<^verbatim>\<open>minimums\<close>. They live in a store; an address is an index into the
  list of the objects of its kind, and an allocation appends a new object. Every
  operation takes the store and returns the store it leaves behind.
\<close>

type_synonym addr = nat

record 'r store =
  generators :: "'r list"            \<comment> \<open>\<^verbatim>\<open>*rand.Rand\<close> objects\<close>
  hashObjects :: "uint64 list"       \<comment> \<open>\<^verbatim>\<open>fnv.New64a()\<close> objects\<close>
  slices :: "uint64 list list"       \<comment> \<open>backing arrays of \<^verbatim>\<open>[]uint64\<close>\<close>

text \<open>
  The generator \<^verbatim>\<open>rand.New(rand.NewSource(seed))\<close> belongs to \<^verbatim>\<open>math/rand\<close>; it
  enters as the two functions \<open>NewSource\<close> (the generator state for a seed) and \<open>Int63\<close>
  (one draw, with the next state). \<^verbatim>\<open>rand.New\<close> allocates the generator and
  \<^verbatim>\<open>r.Int63()\<close> advances the object it is called on.
\<close>

definition rand_New :: "'r \<Rightarrow> 'r store \<Rightarrow> addr \<times> 'r store" where
  "rand_New src st = (length (generators st), st\<lparr>generators := generators st @ [src]\<rparr>)"

definition rand_Int63 :: "('r \<Rightarrow> int64 \<times> 'r) \<Rightarrow> addr \<Rightarrow> 'r store \<Rightarrow> int64 \<times> 'r store" where
  "rand_Int63 Int63 r st =
     (let (x, g) = Int63 (generators st ! r)
      in (x, st\<lparr>generators := (generators st)[r := g]\<rparr>))"

text \<open>\<^verbatim>\<open>fnv.New64a()\<close> allocates a hash object that holds the offset basis.\<close>

definition fnv_New64a :: "'r store \<Rightarrow> addr \<times> 'r store" where
  "fnv_New64a st = (length (hashObjects st), st\<lparr>hashObjects := hashObjects st @ [New64a]\<rparr>)"

section \<open>The hash closures of NewMinhash\<close>

text \<open>
  \<^verbatim>\<open>h1\<close> and \<^verbatim>\<open>h2\<close> are closures over a nonce (\<^verbatim>\<open>b1\<close>, \<^verbatim>\<open>b2\<close>, written once
  by \<^verbatim>\<open>NewMinhash\<close>) and the address of a hash object (\<^verbatim>\<open>fnv1\<close>, \<^verbatim>\<open>fnv2\<close>)
  that every call mutates:
  \<^verbatim>\<open>fnv1.Reset(); fnv1.Write(b1); fnv1.Write(b); return fnv1.Sum64()\<close>.
\<close>

record Hash64 =
  nonce :: "byte list"
  fnv :: addr

definition call_Hash64 :: "Hash64 \<Rightarrow> byte list \<Rightarrow> 'r store \<Rightarrow> uint64 \<times> 'r store" where
  "call_Hash64 h b st =
     (let s = fnv_Reset (hashObjects st ! fnv h);
          s = fnv_Write s (nonce h);
          s = fnv_Write s b
      in (fnv_Sum64 s, st\<lparr>hashObjects := (hashObjects st)[fnv h := s]\<rparr>))"

section \<open>The min-wise sketch (github.com/dgryski/go-minhash)\<close>

text \<open>
  Modelled from the spec: the min-wise sketch primitive \<^verbatim>\<open>minwise.MinWise\<close> is an
  external package, not among the sources of this repository. Its signature starts at the
  maximum representable value in each of \<^verbatim>\<open>size\<close> positions, a push keeps the
  minimum of the old value and \<^verbatim>\<open>h1(b) + i * h2(b)\<close> at position \<open>i\<close>, a merge keeps
  the position-wise minimum, and the similarity is the fraction of agreeing positions.
  The sketch holds the address of its array of minimums and its two hash closures.
\<close>

record MinWise =
  minimums :: addr
  h1 :: Hash64
  h2 :: Hash64

definition NewMinWise :: "Hash64 \<Rightarrow> Hash64 \<Rightarrow> int \<Rightarrow> 'r store \<Rightarrow> (MinWise \<times> 'r store) outcome" where
  "NewMinWise f1 f2 sz st =
     (if sz < 0 then Panicked ''makeslice: len out of range''
      else Returned (\<lparr>minimums = length (slices st), h1 = f1, h2 = f2\<rparr>,
                     st\<lparr>slices := slices st @ [replicate (nat sz) (- 1)]\<rparr>))"

fun MinWise_Push_loop :: "(nat \<times> uint64) list \<Rightarrow> uint64 \<Rightarrow> uint64 \<Rightarrow> uint64 list \<Rightarrow> uint64 list" where
  "MinWise_Push_loop [] v1 v2 mins = mins"
| "MinWise_Push_loop ((i, v) # rest) v1 v2 mins =
     (let hv = v1 + of_nat i * v2
      in MinWise_Push_loop rest v1 v2 (if hv < v then mins[i := hv] else mins))"

definition MinWise_Push :: "MinWise \<Rightarrow> byte list \<Rightarrow> 'r store \<Rightarrow> 'r store" where
  "MinWise_Push m b st =
     (let (v1, st) = call_Hash64 (h1 m) b st;
          (v2, st) = call_Hash64 (h2 m) b st;
          mins = slices st ! minimums m
      in st\<lparr>slices := (slices st)
             [minimums m := MinWise_Push_loop (enumerate 0 mins) v1 v2 mins]\<rparr>)"

definition MinWise_Signature :: "MinWise \<Rightarrow> 'r store \<Rightarrow> uint64 list" where
  "MinWise_Signature m st = slices st ! minimums m"

fun MinWise_Merge_loop :: "(nat \<times> uint64) list \<Rightarrow> uint64 list \<Rightarrow> uint64 list outcome" where
  "MinWise_Merge_loop [] mins = Returned mins"
| "MinWise_Merge_loop ((i, v) # rest) mins =
     (if length mins \<le> i then Panicked ''index out of range''
      else MinWise_Merge_loop rest (if v < mins ! i then mins[i := v] else mins))"

definition MinWise_Merge :: "MinWise \<Rightarrow> MinWise \<Rightarrow> 'r store \<Rightarrow> 'r store outcome" where
  "MinWise_Merge m m2 st =
     (case MinWise_Merge_loop (enumerate 0 (slices st ! minimums m2)) (slices st ! minimums m) of
        Panicked msg \<Rightarrow> Panicked msg
      | Returned mins \<Rightarrow> Returned (st\<lparr>slices := (slices st)[minimums m := mins]\<rparr>))"

text \<open>
  The similarity is the \<^verbatim>\<open>float64\<close> quotient of two integers; floating point is not
  modelled, so the quotient is kept as the pair of its numerator and denominator.
\<close>

datatype quotient = Quotient int int

definition MinWise_Similarity :: "MinWise \<Rightarrow> MinWise \<Rightarrow> 'r store \<Rightarrow> quotient outcome" where
  "MinWise_Similarity m m2 st =
     (let xs = slices st ! minimums m; ys = slices st ! minimums m2
      in if length xs \<noteq> length ys
         then Panicked ''minhash minimums size mismatch''
         else Returned (Quotient
                (int (length (filter (\<lambda>(x, y). x = y) (zip xs ys))))
                (int (length xs))))"

section \<open>Minhash\<close>

record Minhash =
  mw :: MinWise
  seed :: int64

text \<open>
  \<^verbatim>\<open>NewMinhash\<close>: a new generator seeded with \<^verbatim>\<open>seed\<close>, two draws from it for the
  nonces \<^verbatim>\<open>b1\<close> and \<^verbatim>\<open>b2\<close>, two new hash objects, the two closures and a new
  min-wise sketch. The conversion \<^verbatim>\<open>uint64(r.Int63())\<close> keeps the bits.
\<close>

definition NewMinhash ::
  "(int64 \<Rightarrow> 'r) \<Rightarrow> ('r \<Rightarrow> int64 \<times> 'r) \<Rightarrow> int64 \<Rightarrow> int \<Rightarrow> 'r store \<Rightarrow>
     (Minhash \<times> 'r store) outcome" where
  "NewMinhash NewSource Int63 sd numHash st =
     (let (r, st) = rand_New (NewSource sd) st;
          (x1, st) = rand_Int63 Int63 r st;
          b1 = PutUint64 x1;
          (x2, st) = rand_Int63 Int63 r st;
          b2 = PutUint64 x2;
          (fnv1, st) = fnv_New64a st;
          (fnv2, st) = fnv_New64a st
      in case NewMinWise \<lparr>nonce = b1, fnv = fnv1\<rparr> \<lparr>nonce = b2, fnv = fnv2\<rparr> numHash st of
           Panicked msg \<Rightarrow> Panicked msg
         | Returned (w, st) \<Rightarrow> Returned (\<lparr>mw = w, seed = sd\<rparr>, st))"

definition Push :: "Minhash \<Rightarrow> byte list \<Rightarrow> 'r store \<Rightarrow> 'r store" where
  "Push m b st = MinWise_Push (mw m) b st"

definition Signature :: "Minhash \<Rightarrow> 'r store \<Rightarrow> uint64 list" where
  "Signature m st = MinWise_Signature (mw m) st"

definition Merge :: "Minhash \<Rightarrow> Minhash \<Rightarrow> 'r store \<Rightarrow> 'r store outcome" where
  "Merge m o' st =
     (if seed m \<noteq> seed o' then Panicked ''Cannot merge Minhash with different seed''
      else MinWise_Merge (mw m) (mw o') st)"

definition Jaccard :: "Minhash \<Rightarrow> Minhash \<Rightarrow> 'r store \<Rightarrow> (error + quotient) outcome" where
  "Jaccard m o' st =
     (if seed m \<noteq> seed o' then Returned (Inl ErrSeed)
      else case MinWise_Similarity (mw m) (mw o') st of
             Panicked msg \<Rightarrow> Panicked msg
           | Returned q \<Rightarrow> Returned (Inr q))"

section \<open>Clients of Minhash\<close>

text \<open>
  A client of the package creates sketches and pushes elements to them, in any order and
  on any number of sketches. It holds the sketches it has created in the order of their
  creation; a push names its sketch by that position, and a push through a pointer that
  was never assigned is a nil dereference.
\<close>

datatype client_op = Create int64 int | PushOn nat "byte list"

fun step ::
  "(int64 \<Rightarrow> 'r) \<Rightarrow> ('r \<Rightarrow> int64 \<times> 'r) \<Rightarrow> client_op \<Rightarrow> 'r store \<times> Minhash list \<Rightarrow>
     ('r store \<times> Minhash list) outcome" where
  "step NewSource Int63 (Create sd numHash) (st, ms) =
     (case NewMinhash NewSource Int63 sd numHash st of
        Panicked msg \<Rightarrow> Panicked msg
      | Returned (m, st') \<Rightarrow> Returned (st', ms @ [m]))"
| "step NewSource Int63 (PushOn k b) (st, ms) =
     (if k < length ms then Returned (Push (ms ! k) b st, ms)
      else Panicked ''invalid memory address or nil pointer dereference'')"

fun run ::
  "(int64 \<Rightarrow> 'r) \<Rightarrow> ('r \<Rightarrow> int64 \<times> 'r) \<Rightarrow> client_op list \<Rightarrow> 'r store \<times> Minhash list \<Rightarrow>
     ('r store \<times> Minhash list) outcome" where
  "run NewSource Int63 [] cfg = Returned cfg"
| "run NewSource Int63 (c # cs) cfg =
     (case step NewSource Int63 c cfg of
        Panicked msg \<Rightarrow> Panicked msg
      | Returned cfg' \<Rightarrow> run NewSource Int63 cs cfg')"

text \<open>
  What a client program asks for: the arguments of its creations, in order, and the
  elements it pushes to the sketch at position \<open>k\<close>, in order.
\<close>

fun created :: "client_op list \<Rightarrow> (int64 \<times> int) list" where
  "created [] = []"
| "created (Create sd numHash # cs) = (sd, numHash) # created cs"
| "created (PushOn k b # cs) = created cs"

fun pushed :: "nat \<Rightarrow> client_op list \<Rightarrow> byte list list" where
  "pushed k [] = []"
| "pushed k (Create sd numHash # cs) = pushed k cs"
| "pushed k (PushOn j b # cs) = (if j = k then b # pushed k cs else pushed k cs)"

text \<open>
  The signature a sketch ought to have, as a function of its seed, its number of hash
  functions and the elements pushed to it, and of nothing else: the nonces are the first
  two draws of a generator seeded with the seed, the hash of an element is FNV-1a of the
  nonce followed by the element, and every push runs the loop of the min-wise sketch.
\<close>

definition drawNonces ::
  "(int64 \<Rightarrow> 'r) \<Rightarrow> ('r \<Rightarrow> int64 \<times> 'r) \<Rightarrow> int64 \<Rightarrow> byte list \<times> byte list" where
  "drawNonces NewSource Int63 sd =
     (let (x1, g) = Int63 (NewSource sd);
          (x2, g) = Int63 g
      in (PutUint64 x1, PutUint64 x2))"

definition hash64 :: "byte list \<Rightarrow> byte list \<Rightarrow> uint64" where
  "hash64 n b = fnv_Write (fnv_Write offset64 n) b"

definition signatureOf ::
  "(int64 \<Rightarrow> 'r) \<Rightarrow> ('r \<Rightarrow> int64 \<times> 'r) \<Rightarrow> int64 \<Rightarrow> int \<Rightarrow> byte list list \<Rightarrow> uint64 list" where
  "signatureOf NewSource Int63 sd numHash elems =
     (let (b1, b2) = drawNonces NewSource Int63 sd
      in foldl (\<lambda>mins b. MinWise_Push_loop (enumerate 0 mins) (hash64 b1 b) (hash64 b2 b) mins)
           (replicate (nat numHash) (- 1)) elems)"

text \<open>
  The invariant of a client run that started with no sketch in a store \<open>st0\<close> and has
  executed \<open>prog\<close>: there is one sketch per creation; the array of sketch \<open>k\<close> is the
  \<open>k\<close>-th array allocated since the start, its closures hold the nonces of its seed, and
  the array holds the signature that the seed, the number of hash functions and the
  elements pushed to sketch \<open>k\<close> determine; nothing was pushed to a sketch not yet created.
\<close>

definition client_inv ::
  "(int64 \<Rightarrow> 'r) \<Rightarrow> ('r \<Rightarrow> int64 \<times> 'r) \<Rightarrow> 'r store \<Rightarrow> client_op list \<Rightarrow>
     'r store \<times> Minhash list \<Rightarrow> bool" where
  "client_inv NewSource Int63 st0 prog cfg =
     (case cfg of (st, ms) \<Rightarrow>
        length ms = length (created prog) \<and>
        length (slices st) = length (slices st0) + length ms \<and>
        (\<forall>k. length ms \<le> k \<longrightarrow> pushed k prog = []) \<and>
        (\<forall>k<length ms.
           minimums (mw (ms ! k)) = length (slices st0) + k \<and>
           nonce (h1 (mw (ms ! k))) = fst (drawNonces NewSource Int63 (fst (created prog ! k))) \<and>
           nonce (h2 (mw (ms ! k))) = snd (drawNonces NewSource Int63 (fst (created prog ! k))) \<and>
           slices st ! (length (slices st0) + k) =
             signatureOf NewSource Int63 (fst (created prog ! k)) (snd (created prog ! k))
               (pushed k prog)))"

section \<open>The LSH layer\<close>

text \<open>
  Modelled from the spec: the file that holds the parameter optimizer, the band key
  encoder and the index (the code behind \<^verbatim>\<open>NewMinhashLSH\<close>, \<^verbatim>\<open>hashKeyFuncGen\<close>,
  \<^verbatim>\<open>Add\<close>, \<^verbatim>\<open>Index\<close>, \<^verbatim>\<open>Query\<close> and \<^verbatim>\<open>Params\<close>) is not among the
  sources; only its tests and callers are. The definitions of this section follow
  sections 4.2 to 4.4 and 7 of the specification.
\<close>

datatype lsh_error =
    BadThreshold          \<comment> \<open>threshold outside \<open>(0, 1]\<close>\<close>
  | BadSignatureSize      \<comment> \<open>non-positive signature size\<close>
  | NoCandidate           \<comment> \<open>the optimizer found no pair \<open>(k, l)\<close>\<close>
  | SignatureTooShort     \<comment> \<open>fewer than \<open>k * l\<close> values passed to Add or Query\<close>
  | AddAfterIndex         \<comment> \<open>Add on an index that is already built\<close>

subsection \<open>Parameter optimizer\<close>

text \<open>
  Modelled from the spec: two items of similarity \<open>s\<close> collide in at least one of \<open>l\<close>
  bands of width \<open>k\<close> with probability \<open>1 - (1 - s^k)^l\<close>.
\<close>

definition collisionProbability :: "nat \<Rightarrow> nat \<Rightarrow> real \<Rightarrow> real" where
  "collisionProbability k l s = 1 - (1 - s ^ k) ^ l"

text \<open>
  Modelled from the spec: the areas are integrated numerically over a discretization;
  the spec fixes neither the rule nor the number of sample points, so the number of
  sample points is a parameter and the rule is the midpoint rule.
\<close>

definition integral :: "nat \<Rightarrow> (real \<Rightarrow> real) \<Rightarrow> real \<Rightarrow> real \<Rightarrow> real" where
  "integral samples f a b =
     (let dx = (b - a) / real samples
      in sum_list (map (\<lambda>i. f (a + (real i + 1 / 2) * dx) * dx) [0..<samples]))"

text \<open>
  Modelled from the spec: the false-positive area is the collision probability over
  \<open>[0, t)\<close>, the false-negative area its complement over \<open>[t, 1]\<close>.
\<close>

definition falsePositiveArea :: "nat \<Rightarrow> nat \<Rightarrow> nat \<Rightarrow> real \<Rightarrow> real" where
  "falsePositiveArea samples k l t = integral samples (collisionProbability k l) 0 t"

definition falseNegativeArea :: "nat \<Rightarrow> nat \<Rightarrow> nat \<Rightarrow> real \<Rightarrow> real" where
  "falseNegativeArea samples k l t =
     integral samples (\<lambda>s. 1 - collisionProbability k l s) t 1"

definition weightedError :: "nat \<Rightarrow> real \<Rightarrow> real \<Rightarrow> real \<Rightarrow> nat \<times> nat \<Rightarrow> real" where
  "weightedError samples t falsePositiveWeight falseNegativeWeight kl =
     (case kl of (k, l) \<Rightarrow>
        falsePositiveWeight * falsePositiveArea samples k l t +
        falseNegativeWeight * falseNegativeArea samples k l t)"

text \<open>
  Modelled from the spec: the candidates are obtained by scanning \<open>l\<close> from 1 to \<open>n\<close>
  and deriving \<open>k = n / l\<close> by integer division.
\<close>

definition candidates :: "nat \<Rightarrow> (nat \<times> nat) list" where
  "candidates n = map (\<lambda>l. (n div l, l)) [1..<Suc n]"

text \<open>
  Modelled from the spec: the pair with the least weighted error is selected, ties broken
  by first-found order of the scan.
\<close>

fun selectMin :: "('a \<Rightarrow> real) \<Rightarrow> 'a \<Rightarrow> 'a list \<Rightarrow> 'a" where
  "selectMin cost best [] = best"
| "selectMin cost best (c # cs) = selectMin cost (if cost c < cost best then c else best) cs"

definition OptimalParams ::
  "nat \<Rightarrow> nat \<Rightarrow> real \<Rightarrow> real \<Rightarrow> real \<Rightarrow> lsh_error + (nat \<times> nat)" where
  "OptimalParams samples n t falsePositiveWeight falseNegativeWeight =
     (case candidates n of
        [] \<Rightarrow> Inl NoCandidate
      | c # cs \<Rightarrow>
          Inr (selectMin (weightedError samples t falsePositiveWeight falseNegativeWeight) c cs))"

subsection \<open>Band key encoder\<close>

text \<open>
  Modelled from the spec: a value is truncated to its top \<open>bytesPerValue\<close> bytes (two for
  the narrow variant, which keeps the most significant 16 bits, eight for the wide one),
  and the key of a band is the sequence of its truncated values. The spec calls the encoder
  \<^verbatim>\<open>EncodeBand(band, bytesPerValue)\<close>; the tests call it as
  \<^verbatim>\<open>hashKeyFuncGen(bytesPerValue)(band)\<close>.
\<close>

definition encodeValue :: "nat \<Rightarrow> uint64 \<Rightarrow> byte list" where
  "encodeValue bytesPerValue v = take bytesPerValue (PutUint64 v)"

definition hashKeyFuncGen :: "nat \<Rightarrow> uint64 list \<Rightarrow> byte list" where
  "hashKeyFuncGen bytesPerValue band = concat (map (encodeValue bytesPerValue) band)"

subsection \<open>Index\<close>

text \<open>
  Modelled from the spec: the index owns its configuration, the derived \<open>(k, l)\<close>, the
  width of the key encoder chosen at construction, \<open>l\<close> bucket tables from band keys to
  buckets of identifiers, and the phase of its life cycle. A bucket is kept as the list of
  the identifiers added to it, since the spec leaves open what a repeated identifier does.
\<close>

record 'id MinhashLSH =
  signatureSize :: nat
  threshold :: real
  params_k :: nat
  params_l :: nat
  keyBytesPerValue :: nat
  hashTables :: "(byte list \<rightharpoonup> 'id list) list"
  built :: bool

definition NewMinhashLSH ::
  "nat \<Rightarrow> nat \<Rightarrow> int \<Rightarrow> real \<Rightarrow> real \<Rightarrow> real \<Rightarrow> lsh_error + 'id MinhashLSH" where
  "NewMinhashLSH samples bpv n t falsePositiveWeight falseNegativeWeight =
     (if \<not> (0 < t \<and> t \<le> 1) then Inl BadThreshold
      else if n \<le> 0 then Inl BadSignatureSize
      else case OptimalParams samples (nat n) t falsePositiveWeight falseNegativeWeight of
             Inl err \<Rightarrow> Inl err
           | Inr (k, l) \<Rightarrow>
               Inr \<lparr>signatureSize = nat n, threshold = t, params_k = k, params_l = l,
                    keyBytesPerValue = bpv, hashTables = replicate l Map.empty,
                    built = False\<rparr>)"

text \<open>
  Modelled from the spec: band \<open>j\<close> covers the positions \<open>[j * k, (j + 1) * k)\<close>; values
  beyond \<open>k * l\<close> are ignored.
\<close>

definition bands :: "nat \<Rightarrow> nat \<Rightarrow> uint64 list \<Rightarrow> uint64 list list" where
  "bands k l sig = map (\<lambda>j. take k (drop (j * k) sig)) [0..<l]"

definition hashKeys :: "'id MinhashLSH \<Rightarrow> uint64 list \<Rightarrow> byte list list" where
  "hashKeys idx sig =
     map (hashKeyFuncGen (keyBytesPerValue idx)) (bands (params_k idx) (params_l idx) sig)"

definition bucket :: "(byte list \<rightharpoonup> 'id list) \<Rightarrow> byte list \<Rightarrow> 'id list" where
  "bucket table key = (case table key of None \<Rightarrow> [] | Some ids \<Rightarrow> ids)"

text \<open>
  Modelled from the spec: \<^verbatim>\<open>Add\<close> checks the length before it touches a table, then
  inserts the identifier into table \<open>j\<close> under the key of band \<open>j\<close>, creating the bucket
  if absent. Of the two behaviours the spec allows after \<^verbatim>\<open>Index()\<close>, it fails.
\<close>

definition Add :: "'id MinhashLSH \<Rightarrow> 'id \<Rightarrow> uint64 list \<Rightarrow> lsh_error + 'id MinhashLSH" where
  "Add idx ident sig =
     (if built idx then Inl AddAfterIndex
      else if length sig < params_k idx * params_l idx then Inl SignatureTooShort
      else Inr (idx\<lparr>hashTables :=
             map (\<lambda>(table, key). table(key \<mapsto> bucket table key @ [ident]))
               (zip (hashTables idx) (hashKeys idx sig))\<rparr>))"

definition Index :: "'id MinhashLSH \<Rightarrow> 'id MinhashLSH" where
  "Index idx = idx\<lparr>built := True\<rparr>"

definition Params :: "'id MinhashLSH \<Rightarrow> nat \<times> nat" where
  "Params idx = (params_k idx, params_l idx)"

text \<open>
  Modelled from the spec: \<^verbatim>\<open>Query\<close> computes the same \<open>l\<close> band keys as
  \<^verbatim>\<open>Add\<close>, looks up the bucket of key \<open>j\<close> in table \<open>j\<close>, unites the identifiers of
  all \<open>l\<close> lookups and removes the repetitions.
\<close>

fun deduplicate :: "'id list \<Rightarrow> 'id list \<Rightarrow> 'id list" where
  "deduplicate result [] = result"
| "deduplicate result (x # xs) =
     deduplicate (if x \<in> set result then result else result @ [x]) xs"

definition Query :: "'id MinhashLSH \<Rightarrow> uint64 list \<Rightarrow> lsh_error + 'id list" where
  "Query idx sig =
     (if length sig < params_k idx * params_l idx then Inl SignatureTooShort
      else Inr (deduplicate []
             (concat (map (\<lambda>(table, key). bucket table key)
                (zip (hashTables idx) (hashKeys idx sig))))))"

section \<open>Properties of the serialisation\<close>

lemma Uint64_PutUint64: "Uint64 (PutUint64 v) = v"
  unfolding Uint64_def PutUint64_def
  apply (rule bit_word_eqI)
  subgoal for n
    apply (simp add: bit_simps less_diff_conv2 cong: conj_cong)
    apply (cases "bit v n")
     apply simp_all
    apply linarith
    done
  done

lemma length_PutUint64: "length (PutUint64 v) = 8"
  by (simp add: PutUint64_def)

text \<open>
  The decoding as a number: \<^verbatim>\<open>Uint64\<close> is the Horner scheme over the eight bytes,
  first byte most significant.
\<close>

lemma or_byte_eq_add:
  fixes a :: uint64 and x :: byte
  shows "push_bit 8 a OR ucast x = push_bit 8 a + ucast x"
proof -
  have "push_bit 8 a AND (ucast x :: uint64) = 0"
    by (rule bit_word_eqI) (auto simp: bit_simps dest: bit_imp_le_length)
  then show ?thesis by (simp add: disjunctive_add_eq_or)
qed

lemma Uint64_horner:
  "Uint64 [b0, b1, b2, b3, b4, b5, b6, b7] =
     foldl (\<lambda>a x. push_bit 8 a OR ucast x) 0 [b0, b1, b2, b3, b4, b5, b6, b7]"
  unfolding Uint64_def
  apply (rule bit_word_eqI)
  subgoal for n
    apply (simp add: bit_simps less_diff_conv2 cong: conj_cong)
    apply (auto simp: bit_simps dest: bit_imp_le_length)
    done
  done

lemma unat_or_byte:
  fixes a :: uint64 and x :: byte
  assumes "unat a < 2 ^ 56"
  shows "unat (push_bit 8 a OR ucast x) = 256 * unat a + unat x"
proof -
  have x: "unat x < 256" using unsigned_less [of x, where ?'a = nat] by simp
  have "unat a * 256 < 2 ^ 64" using assms by simp
  then have "unat (push_bit 8 a) = 256 * unat a"
    by (simp add: push_bit_eq_mult unat_word_ariths)
  moreover have "unat x < 2 ^ 64" using x by simp
  then have "unat (ucast x :: uint64) = unat x"
    by (simp add: unsigned_ucast_eq take_bit_nat_eq_self)
  ultimately show ?thesis
    using assms x by (simp add: or_byte_eq_add unat_word_ariths)
qed

lemma unat_foldl_or_byte:
  fixes a :: uint64 and xs :: "byte list"
  shows "(unat a + 1) * 256 ^ length xs \<le> 2 ^ 64 \<Longrightarrow>
    unat (foldl (\<lambda>a x. push_bit 8 a OR ucast x) a xs) =
    foldl (\<lambda>a x. 256 * a + unat x) (unat a) xs"
proof (induction xs arbitrary: a)
  case Nil
  then show ?case by simp
next
  case (Cons x xs)
  have x: "unat x < 256" using unsigned_less [of x, where ?'a = nat] by simp
  from Cons.prems have b: "(unat a + 1) * 256 * 256 ^ length xs \<le> 2 ^ 64"
    by (metis length_Cons power_Suc mult.assoc)
  have "0 < (256::nat) ^ length xs" by simp
  then have "(unat a + 1) * 256 \<le> (unat a + 1) * 256 * 256 ^ length xs"
    by (metis Suc_leI mult.right_neutral mult_le_mono2 One_nat_def)
  with b have "(unat a + 1) * 256 \<le> 2 ^ 64" by linarith
  then have a56: "unat a < 2 ^ 56" by simp
  have step: "unat (push_bit 8 a OR ucast x) = 256 * unat a + unat x"
    by (rule unat_or_byte [OF a56])
  have "(256 * unat a + unat x + 1) \<le> (unat a + 1) * 256" using x by simp
  then have "(256 * unat a + unat x + 1) * 256 ^ length xs \<le> (unat a + 1) * 256 * 256 ^ length xs"
    by (rule mult_le_mono1)
  with b have "(unat (push_bit 8 a OR ucast x) + 1) * 256 ^ length xs \<le> 2 ^ 64"
    unfolding step by linarith
  from Cons.IH [OF this] show ?case by (simp add: step)
qed

lemma unat_Uint64:
  assumes "length b = 8"
  shows "unat (Uint64 b) = foldl (\<lambda>a x. 256 * a + unat x) 0 b"
proof -
  from assms obtain b0 b1 b2 b3 b4 b5 b6 b7 where b: "b = [b0, b1, b2, b3, b4, b5, b6, b7]"
    by (auto simp: length_Suc_conv numeral_eq_Suc)
  have "(unat (0 :: uint64) + 1) * 256 ^ length b \<le> 2 ^ 64" using assms by simp
  from unat_foldl_or_byte [OF this] show ?thesis
    unfolding b Uint64_horner by simp
qed

lemma binary_Read_enough:
  "8 \<le> length r \<Longrightarrow> binary_Read r = Inr (Uint64 (take 8 r), drop 8 r)"
  by (auto simp: binary_Read_def)

lemma chunk_drop8: "i < j \<Longrightarrow> chunk (drop 8 r) (j - Suc i) = chunk r (j - i)"
proof -
  assume "i < j"
  then have "8 * (j - Suc i) + 8 = 8 * (j - i)" by simp
  then show ?thesis by (simp add: chunk_def)
qed

text \<open>
  The loop from index \<open>i\<close> on, with at least eight bytes left for every remaining
  index: no read fails, the slots below \<open>i\<close> are kept and every later slot receives
  the decoding of its chunk.
\<close>

lemma BytesToSig_loop_eq:
  "length sig = n \<Longrightarrow> i \<le> n \<Longrightarrow> 8 * (n - i) \<le> length r \<Longrightarrow>
   BytesToSig_loop [i..<n] r sig =
     Inr (take i sig @ map (\<lambda>j. Uint64 (chunk r (j - i))) [i..<n])"
proof (induction "n - i" arbitrary: i r sig)
  case 0
  then show ?case by simp
next
  case (Suc m)
  let ?v = "Uint64 (take 8 r)"
  from Suc.hyps(2) have lt: "i < n" by simp
  then have upt: "[i..<n] = i # [Suc i..<n]" by (simp add: upt_conv_Cons)
  from Suc.prems(3) lt have len: "8 \<le> length r" by simp
  have rest: "8 * (n - Suc i) \<le> length (drop 8 r)"
    using Suc.prems(3) lt by simp
  have m: "m = n - Suc i" using Suc.hyps(2) by simp
  have IH: "BytesToSig_loop [Suc i..<n] (drop 8 r) (sig[i := ?v]) =
      Inr (take (Suc i) (sig[i := ?v]) @
           map (\<lambda>j. Uint64 (chunk (drop 8 r) (j - Suc i))) [Suc i..<n])"
    using Suc.hyps(1) [OF m _ _ rest, of "sig[i := ?v]"] Suc.prems(1) lt by simp
  have tk: "take (Suc i) (sig[i := ?v]) = take i sig @ [?v]"
    using lt Suc.prems(1) by (simp add: take_Suc_conv_app_nth)
  have mp: "map (\<lambda>j. Uint64 (chunk (drop 8 r) (j - Suc i))) [Suc i..<n] =
            map (\<lambda>j. Uint64 (chunk r (j - i))) [Suc i..<n]"
    by (rule map_cong) (simp_all add: chunk_drop8)
  have hd: "chunk r 0 = take 8 r" by (simp add: chunk_def)
  show ?case
    unfolding upt by (simp add: binary_Read_enough [OF len] IH tk mp hd)
qed

text \<open>
  Since \<open>size\<close> is the rounded-down quotient, the precondition of the loop lemma holds
  for every buffer: \<^verbatim>\<open>BytesToSig\<close> reads exactly the leading \<open>8 * size\<close> bytes.
\<close>

lemma BytesToSig_eq:
  "BytesToSig data = Inr (map (\<lambda>i. Uint64 (chunk data i)) [0..<length data div 8])"
proof -
  have "8 * (length data div 8 - 0) \<le> length data" by simp
  from BytesToSig_loop_eq [OF _ _ this, of "replicate (length data div 8) 0"]
  show ?thesis by (simp add: BytesToSig_def hashValueSize_def Let_def)
qed

lemma foldl_binary_Write: "foldl binary_Write buf sig = buf @ concat (map PutUint64 sig)"
  by (induction sig arbitrary: buf) (simp_all add: binary_Write_def)

lemma SigToBytes_eq: "SigToBytes sig = concat (map PutUint64 sig)"
  by (simp add: SigToBytes_def foldl_binary_Write)

lemma length_SigToBytes: "length (SigToBytes sig) = 8 * length sig"
  by (induction sig) (simp_all add: SigToBytes_eq length_PutUint64)

lemma chunk_SigToBytes: "i < length sig \<Longrightarrow> chunk (SigToBytes sig) i = PutUint64 (sig ! i)"
proof (induction sig arbitrary: i)
  case Nil
  then show ?case by simp
next
  case (Cons v vs)
  show ?case
  proof (cases i)
    case 0
    then show ?thesis by (simp add: SigToBytes_eq chunk_def length_PutUint64)
  next
    case (Suc j)
    with Cons.prems have "j < length vs" by simp
    from Cons.IH [OF this] show ?thesis
      using Suc by (simp add: SigToBytes_eq chunk_def length_PutUint64)
  qed
qed

lemma length_chunk: "i < length data div 8 \<Longrightarrow> length (chunk data i) = 8"
  by (simp add: chunk_def)

text \<open>
  Claim C2: for every non-empty signature, \<^verbatim>\<open>BytesToSig(SigToBytes(sig))\<close>
  succeeds and returns a sequence equal to \<open>sig\<close>.
\<close>

theorem BytesToSig_SigToBytes:
  "sig \<noteq> [] \<Longrightarrow> BytesToSig (SigToBytes sig) = Inr sig"
proof -
  have "map (\<lambda>i. Uint64 (chunk (SigToBytes sig) i)) [0..<length sig] = sig"
    by (rule nth_equalityI) (simp_all add: chunk_SigToBytes Uint64_PutUint64)
  then show ?thesis by (simp add: BytesToSig_eq length_SigToBytes)
qed

theorem BytesToSig_SigToBytes_witness:
  "[1, 2 :: uint64] \<noteq> [] \<and> BytesToSig (SigToBytes [1, 2]) = Inr [1, 2]"
  using BytesToSig_SigToBytes [of "[1, 2]"] by simp

text \<open>
  Claim C9: for every byte slice whose length is a multiple of 8, the empty slice
  included, \<^verbatim>\<open>BytesToSig\<close> returns no error and exactly \<open>len(data) / 8\<close> values,
  the \<open>i\<close>-th being the big-endian decoding of the bytes \<open>[8 * i, 8 * i + 8)\<close>: the
  result of \<^verbatim>\<open>binary.BigEndian.Uint64\<close> on them, which is the base-256 number whose
  most significant digit is the first byte.
\<close>

theorem BytesToSig_multiple_of_8:
  "length data mod 8 = 0 \<Longrightarrow>
   \<exists>sig. BytesToSig data = Inr sig \<and> length sig = length data div 8 \<and>
     (\<forall>i<length sig. sig ! i = Uint64 (take 8 (drop (8 * i) data)) \<and>
        unat (sig ! i) = foldl (\<lambda>a x. 256 * a + unat x) 0 (take 8 (drop (8 * i) data)))"
  using length_chunk [of _ data]
  by (simp add: BytesToSig_eq unat_Uint64 chunk_def)

theorem BytesToSig_multiple_of_8_witness:
  "length ([] :: byte list) mod 8 = 0 \<and> BytesToSig [] = Inr [] \<and>
   length [0, 0, 0, 0, 0, 0, 1, 2 :: byte] mod 8 = 0 \<and>
   BytesToSig [0, 0, 0, 0, 0, 0, 1, 2] = Inr [258]"
proof -
  from BytesToSig_multiple_of_8 [of "[]"] have "BytesToSig [] = Inr []" by simp
  moreover
  from BytesToSig_multiple_of_8 [of "[0, 0, 0, 0, 0, 0, 1, 2]"]
  obtain sig where "BytesToSig [0, 0, 0, 0, 0, 0, 1, 2] = Inr sig" "length sig = 1"
    "sig ! 0 = Uint64 [0, 0, 0, 0, 0, 0, 1, 2]" by auto
  moreover have "Uint64 [0, 0, 0, 0, 0, 0, 1, 2] = 258" by (simp add: Uint64_def)
  ultimately show ?thesis by (cases sig) auto
qed

text \<open>
  Claim C1, as stated (\<^verbatim>\<open>BytesToSig\<close> fails on every length that is not a
  multiple of 8), does not hold: on nine bytes the function returns one value and no
  error.
\<close>

theorem BytesToSig_trailing_bytes_counterexample:
  "length [0, 0, 0, 0, 0, 0, 0, 1, 255 :: byte] mod 8 \<noteq> 0 \<and>
   BytesToSig [0, 0, 0, 0, 0, 0, 0, 1, 255] = Inr [1]"
  by (simp add: BytesToSig_def hashValueSize_def binary_Read_def Uint64_def upt_rec)

text \<open>
  Claim C1, amended: for every byte slice whose length is not a multiple of 8,
  \<^verbatim>\<open>BytesToSig\<close> returns no error; it returns the \<open>len(data) / 8\<close> (rounded
  down) values decoded from the leading bytes and ignores the trailing
  \<open>len(data) mod 8\<close> bytes.
\<close>

theorem BytesToSig_ignores_trailing_bytes:
  "length data mod 8 \<noteq> 0 \<Longrightarrow>
   \<exists>sig. BytesToSig data = Inr sig \<and> length sig = length data div 8 \<and>
     (\<forall>i<length sig. sig ! i = Uint64 (take 8 (drop (8 * i) data)))"
  by (simp add: BytesToSig_eq chunk_def)

theorem BytesToSig_ignores_trailing_bytes_witness:
  "length [1, 2, 3 :: byte] mod 8 \<noteq> 0 \<and> BytesToSig [1, 2, 3] = Inr []"
  using BytesToSig_ignores_trailing_bytes [of "[1, 2, 3]"] by auto

section \<open>Properties of SigMatches\<close>

lemma SigMatches_loop_filter:
  "SigMatches_loop ivs sig2 c = c + int (length (filter (\<lambda>(i, v). v = sig2 ! i) ivs))"
  by (induction ivs sig2 c rule: SigMatches_loop.induct) (simp_all add: Let_def)

lemma count_enumerate:
  "length (filter (\<lambda>(i, v). v = sig2 ! i) (enumerate 0 sig1)) =
   card {i. i < length sig1 \<and> sig1 ! i = sig2 ! i}"
proof -
  have "{i. i < length (enumerate 0 sig1) \<and> (\<lambda>(i, v). v = sig2 ! i) (enumerate 0 sig1 ! i)} =
        {i. i < length sig1 \<and> sig1 ! i = sig2 ! i}"
    by (auto simp: nth_enumerate_eq)
  then show ?thesis by (simp add: length_filter_conv_card)
qed

lemma SigMatches_eq:
  "SigMatches sig1 sig2 =
     (if length sig1 \<noteq> length sig2 then Inl ErrSigSize
      else Inr (int (card {i. i < length sig1 \<and> sig1 ! i = sig2 ! i})))"
  by (simp add: SigMatches_def SigMatches_loop_filter count_enumerate)

text \<open>
  Claim C4: \<^verbatim>\<open>SigMatches(sig1, sig2)\<close> returns an error exactly when the lengths
  differ, and otherwise the number of positions \<open>i\<close> with \<open>sig1[i] = sig2[i]\<close>.
\<close>

theorem SigMatches_spec:
  "(\<exists>err. SigMatches sig1 sig2 = Inl err) = (length sig1 \<noteq> length sig2) \<and>
   (length sig1 = length sig2 \<longrightarrow>
      SigMatches sig1 sig2 = Inr (int (card {i. i < length sig1 \<and> sig1 ! i = sig2 ! i})))"
  by (simp add: SigMatches_eq)

theorem SigMatches_spec_witness:
  "length [1, 2, 3 :: uint64] = length [1, 5, 3 :: uint64] \<and>
   SigMatches [1, 2, 3] [1, 5, 3] = Inr 2 \<and> (\<exists>err. SigMatches [1, 2] [1] = Inl err)"
proof -
  have "SigMatches [1, 2, 3] [1, 5, 3] = Inr 2"
    by (simp add: SigMatches_def enumerate_eq_zip upt_rec)
  moreover have "\<exists>err. SigMatches [1, 2] [1 :: uint64] = Inl err"
    using SigMatches_spec [of "[1, 2]" "[1]"] by simp
  ultimately show ?thesis by simp
qed

text \<open>
  Claim C10: on signatures of equal length, \<^verbatim>\<open>SigMatches(sig1, sig2)\<close> and
  \<^verbatim>\<open>SigMatches(sig2, sig1)\<close> both succeed and return the same count.
\<close>

theorem SigMatches_symmetric:
  "length sig1 = length sig2 \<Longrightarrow>
   \<exists>n. SigMatches sig1 sig2 = Inr n \<and> SigMatches sig2 sig1 = Inr n"
proof -
  assume len: "length sig1 = length sig2"
  have "{i. i < length sig1 \<and> sig1 ! i = sig2 ! i} = {i. i < length sig2 \<and> sig2 ! i = sig1 ! i}"
    using len by auto
  then show ?thesis using len by (simp add: SigMatches_eq)
qed

theorem SigMatches_symmetric_witness:
  "length [1, 2, 3 :: uint64] = length [1, 5, 3 :: uint64] \<and>
   (\<exists>n. SigMatches [1, 2, 3] [1, 5, 3] = Inr n \<and> SigMatches [1, 5, 3] [1, 2, 3] = Inr n)"
  using SigMatches_symmetric [of "[1, 2, 3]" "[1, 5, 3]"] by simp

section \<open>Properties of Minhash\<close>

lemma run_append:
  "run NewSource Int63 (cs @ ds) cfg =
     (case run NewSource Int63 cs cfg of
        Panicked msg \<Rightarrow> Panicked msg
      | Returned cfg' \<Rightarrow> run NewSource Int63 ds cfg')"
  by (induction cs arbitrary: cfg) (simp_all split: outcome.splits)

lemma created_append: "created (cs @ ds) = created cs @ created ds"
  by (induction cs rule: created.induct) simp_all

lemma pushed_append: "pushed k (cs @ ds) = pushed k cs @ pushed k ds"
  by (induction k cs rule: pushed.induct) simp_all

text \<open>
  The value of a hash closure does not depend on what its hash object held before the
  call, since every call resets it first; and a call leaves every array alone.
\<close>

lemma call_Hash64_value: "fst (call_Hash64 h b st) = hash64 (nonce h) b"
  by (simp add: call_Hash64_def hash64_def fnv_Reset_def fnv_Sum64_def Let_def)

lemma call_Hash64_slices: "slices (snd (call_Hash64 h b st)) = slices st"
  by (simp add: call_Hash64_def Let_def)

lemma Push_slices:
  "slices (Push m b st) =
     (slices st)[minimums (mw m) :=
        MinWise_Push_loop (enumerate 0 (slices st ! minimums (mw m)))
          (hash64 (nonce (h1 (mw m))) b) (hash64 (nonce (h2 (mw m))) b)
          (slices st ! minimums (mw m))]"
  using call_Hash64_value [of "h1 (mw m)" b st]
    call_Hash64_value [of "h2 (mw m)" b "snd (call_Hash64 (h1 (mw m)) b st)"]
  by (simp add: Push_def MinWise_Push_def split_beta Let_def call_Hash64_slices)

text \<open>What \<^verbatim>\<open>NewMinhash\<close> returns and allocates.\<close>

lemma NewMinhash_negative:
  "numHash < 0 \<Longrightarrow>
   NewMinhash NewSource Int63 sd numHash st = Panicked ''makeslice: len out of range''"
  by (simp add: NewMinhash_def NewMinWise_def split_beta Let_def)

lemma NewMinhash_Returned:
  assumes "NewMinhash NewSource Int63 sd numHash st = Returned (m, st')"
  shows "seed m = sd"
    and "minimums (mw m) = length (slices st)"
    and "nonce (h1 (mw m)) = fst (drawNonces NewSource Int63 sd)"
    and "nonce (h2 (mw m)) = snd (drawNonces NewSource Int63 sd)"
    and "slices st' = slices st @ [replicate (nat numHash) (- 1)]"
  using assms
  by (auto simp: NewMinhash_def NewMinWise_def rand_New_def rand_Int63_def fnv_New64a_def
      drawNonces_def split_beta Let_def split: if_splits)

lemma signatureOf_Nil:
  "signatureOf NewSource Int63 sd numHash [] = replicate (nat numHash) (- 1)"
  by (simp add: signatureOf_def split_beta)

lemma signatureOf_snoc:
  "signatureOf NewSource Int63 sd numHash (elems @ [b]) =
     MinWise_Push_loop (enumerate 0 (signatureOf NewSource Int63 sd numHash elems))
       (hash64 (fst (drawNonces NewSource Int63 sd)) b)
       (hash64 (snd (drawNonces NewSource Int63 sd)) b)
       (signatureOf NewSource Int63 sd numHash elems)"
  by (simp add: signatureOf_def split_beta)

lemma client_inv_Create:
  assumes inv: "client_inv NewSource Int63 st0 prog (st, ms)"
    and new: "NewMinhash NewSource Int63 sd numHash st = Returned (m, st')"
  shows "client_inv NewSource Int63 st0 (prog @ [Create sd numHash]) (st', ms @ [m])"
proof -
  note R = NewMinhash_Returned [OF new]
  from inv have len: "length ms = length (created prog)"
    and sl: "length (slices st) = length (slices st0) + length ms"
    and none: "\<And>k. length ms \<le> k \<Longrightarrow> pushed k prog = []"
    and each: "\<And>k. k < length ms \<Longrightarrow>
           minimums (mw (ms ! k)) = length (slices st0) + k \<and>
           nonce (h1 (mw (ms ! k))) = fst (drawNonces NewSource Int63 (fst (created prog ! k))) \<and>
           nonce (h2 (mw (ms ! k))) = snd (drawNonces NewSource Int63 (fst (created prog ! k))) \<and>
           slices st ! (length (slices st0) + k) =
             signatureOf NewSource Int63 (fst (created prog ! k)) (snd (created prog ! k))
               (pushed k prog)"
    by (simp_all add: client_inv_def)
  have "\<And>k. k < length (ms @ [m]) \<Longrightarrow>
           minimums (mw ((ms @ [m]) ! k)) = length (slices st0) + k \<and>
           nonce (h1 (mw ((ms @ [m]) ! k))) =
             fst (drawNonces NewSource Int63 (fst (created (prog @ [Create sd numHash]) ! k))) \<and>
           nonce (h2 (mw ((ms @ [m]) ! k))) =
             snd (drawNonces NewSource Int63 (fst (created (prog @ [Create sd numHash]) ! k))) \<and>
           slices st' ! (length (slices st0) + k) =
             signatureOf NewSource Int63 (fst (created (prog @ [Create sd numHash]) ! k))
               (snd (created (prog @ [Create sd numHash]) ! k))
               (pushed k (prog @ [Create sd numHash]))"
  proof -
    fix k assume "k < length (ms @ [m])"
    then consider "k < length ms" | "k = length ms" by fastforce
    then show "minimums (mw ((ms @ [m]) ! k)) = length (slices st0) + k \<and>
           nonce (h1 (mw ((ms @ [m]) ! k))) =
             fst (drawNonces NewSource Int63 (fst (created (prog @ [Create sd numHash]) ! k))) \<and>
           nonce (h2 (mw ((ms @ [m]) ! k))) =
             snd (drawNonces NewSource Int63 (fst (created (prog @ [Create sd numHash]) ! k))) \<and>
           slices st' ! (length (slices st0) + k) =
             signatureOf NewSource Int63 (fst (created (prog @ [Create sd numHash]) ! k))
               (snd (created (prog @ [Create sd numHash]) ! k))
               (pushed k (prog @ [Create sd numHash]))"
    proof cases
      case 1
      then show ?thesis
        using each [OF 1] len sl
        by (simp add: created_append pushed_append nth_append R(5))
    next
      case 2
      then show ?thesis
        using len sl none [of k] R(2,3,4)
        by (simp add: created_append pushed_append nth_append R(5) signatureOf_Nil)
    qed
  qed
  then show ?thesis
    using len sl none
    by (simp add: client_inv_def created_append pushed_append R(5))
qed

lemma client_inv_PushOn:
  assumes inv: "client_inv NewSource Int63 st0 prog (st, ms)"
    and j: "j < length ms"
  shows "client_inv NewSource Int63 st0 (prog @ [PushOn j b]) (Push (ms ! j) b st, ms)"
proof -
  from inv have len: "length ms = length (created prog)"
    and sl: "length (slices st) = length (slices st0) + length ms"
    and none: "\<And>k. length ms \<le> k \<Longrightarrow> pushed k prog = []"
    and each: "\<And>k. k < length ms \<Longrightarrow>
           minimums (mw (ms ! k)) = length (slices st0) + k \<and>
           nonce (h1 (mw (ms ! k))) = fst (drawNonces NewSource Int63 (fst (created prog ! k))) \<and>
           nonce (h2 (mw (ms ! k))) = snd (drawNonces NewSource Int63 (fst (created prog ! k))) \<and>
           slices st ! (length (slices st0) + k) =
             signatureOf NewSource Int63 (fst (created prog ! k)) (snd (created prog ! k))
               (pushed k prog)"
    by (simp_all add: client_inv_def)
  note ej = each [OF j]
  have "\<And>k. k < length ms \<Longrightarrow>
           slices (Push (ms ! j) b st) ! (length (slices st0) + k) =
             signatureOf NewSource Int63 (fst (created prog ! k)) (snd (created prog ! k))
               (pushed k (prog @ [PushOn j b]))"
  proof -
    fix k assume k: "k < length ms"
    show "slices (Push (ms ! j) b st) ! (length (slices st0) + k) =
             signatureOf NewSource Int63 (fst (created prog ! k)) (snd (created prog ! k))
               (pushed k (prog @ [PushOn j b]))"
    proof (cases "k = j")
      case True
      then show ?thesis
        using ej j sl
        by (simp add: Push_slices pushed_append signatureOf_snoc)
    next
      case False
      then show ?thesis
        using each [OF k] ej
        by (simp add: Push_slices pushed_append)
    qed
  qed
  then show ?thesis
    using len sl none each j
    by (simp add: client_inv_def created_append pushed_append Push_slices)
qed

lemma client_inv_step:
  assumes "client_inv NewSource Int63 st0 prog cfg"
    and "step NewSource Int63 c cfg = Returned cfg'"
  shows "client_inv NewSource Int63 st0 (prog @ [c]) cfg'"
proof (cases cfg)
  case (Pair st ms)
  show ?thesis
  proof (cases c)
    case (Create sd numHash)
    with assms Pair show ?thesis
      by (auto split: outcome.splits intro: client_inv_Create)
  next
    case (PushOn j b)
    with assms Pair show ?thesis
      by (auto split: if_splits intro: client_inv_PushOn)
  qed
qed

lemma client_inv_run:
  "run NewSource Int63 prog (st0, []) = Returned cfg \<Longrightarrow>
   client_inv NewSource Int63 st0 prog cfg"
proof (induction prog arbitrary: cfg rule: rev_induct)
  case Nil
  then show ?case by (auto simp: client_inv_def)
next
  case (snoc c prog)
  from snoc.prems obtain cfg0 where
    r: "run NewSource Int63 prog (st0, []) = Returned cfg0" and
    s: "step NewSource Int63 c cfg0 = Returned cfg"
    by (auto simp: run_append split: outcome.splits)
  from client_inv_step [OF snoc.IH [OF r] s] show ?case .
qed

text \<open>
  Claim C7: two sketches created with the same seed and number of hash functions and fed
  the same sequence of pushes have the same signature. The two sketches are two objects
  of one client run, created at different moments in different stores; the run may
  interleave their pushes in any way and may create and feed any other sketches.
\<close>

theorem NewMinhash_reproducible:
  "run NewSource Int63 prog (st0, []) = Returned (st, ms) \<Longrightarrow>
   i < length ms \<Longrightarrow> j < length ms \<Longrightarrow>
   created prog ! i = (sd, numHash) \<Longrightarrow> created prog ! j = (sd, numHash) \<Longrightarrow>
   pushed i prog = elems \<Longrightarrow> pushed j prog = elems \<Longrightarrow>
   Signature (ms ! i) st = Signature (ms ! j) st \<and>
   Signature (ms ! i) st = signatureOf NewSource Int63 sd numHash elems"
proof -
  assume r: "run NewSource Int63 prog (st0, []) = Returned (st, ms)"
    and i: "i < length ms" and j: "j < length ms"
    and ci: "created prog ! i = (sd, numHash)" and cj: "created prog ! j = (sd, numHash)"
    and pi: "pushed i prog = elems" and pj: "pushed j prog = elems"
  from client_inv_run [OF r] have
    each: "\<And>k. k < length ms \<Longrightarrow>
           minimums (mw (ms ! k)) = length (slices st0) + k \<and>
           slices st ! (length (slices st0) + k) =
             signatureOf NewSource Int63 (fst (created prog ! k)) (snd (created prog ! k))
               (pushed k prog)"
    by (simp add: client_inv_def)
  from each [OF i] each [OF j] ci cj pi pj show ?thesis
    by (simp add: Signature_def MinWise_Signature_def)
qed


theorem NewMinhash_reproducible_witness:
  "\<exists>st ms.
     run (\<lambda>s. s) (\<lambda>r. (r + 1, r + 2))
       [Create 5 2, PushOn 0 [1, 2], Create 5 2, PushOn 1 [1, 2], PushOn 1 [3], PushOn 0 [3]]
       (\<lparr>generators = [], hashObjects = [], slices = []\<rparr>, []) = Returned (st, ms) \<and>
     0 < length ms \<and> 1 < length ms \<and>
     created [Create 5 2, PushOn 0 [1, 2], Create 5 2, PushOn 1 [1, 2], PushOn 1 [3],
       PushOn 0 [3]] ! 0 = (5, 2) \<and>
     created [Create 5 2, PushOn 0 [1, 2], Create 5 2, PushOn 1 [1, 2], PushOn 1 [3],
       PushOn 0 [3]] ! 1 = (5, 2) \<and>
     pushed 0 [Create 5 2, PushOn 0 [1, 2], Create 5 2, PushOn 1 [1, 2], PushOn 1 [3],
       PushOn 0 [3]] = [[1, 2], [3]] \<and>
     pushed 1 [Create 5 2, PushOn 0 [1, 2], Create 5 2, PushOn 1 [1, 2], PushOn 1 [3],
       PushOn 0 [3]] = [[1, 2], [3]] \<and>
     ms ! 0 \<noteq> ms ! 1 \<and>
     Signature (ms ! 0) st = Signature (ms ! 1) st"
proof -
  let ?prog = "[Create 5 2, PushOn 0 [1, 2], Create 5 2, PushOn 1 [1, 2], PushOn 1 [3],
       PushOn 0 [3]]"
  let ?st0 = "\<lparr>generators = ([] :: int64 list), hashObjects = [], slices = []\<rparr>"
  obtain st ms where
    r: "run (\<lambda>s. s) (\<lambda>r. (r + 1, r + 2)) ?prog (?st0, []) = Returned (st, ms)"
    and l: "length ms = 2" and d: "minimums (mw (ms ! 0)) \<noteq> minimums (mw (ms ! 1))"
    by (simp add: NewMinhash_def NewMinWise_def rand_New_def rand_Int63_def fnv_New64a_def
        split_beta Let_def Push_slices)
  have i: "0 < length ms" and j: "1 < length ms" using l by simp_all
  have c0: "created ?prog ! 0 = (5, 2)" and c1: "created ?prog ! 1 = (5, 2)" by simp_all
  have p0: "pushed 0 ?prog = [[1, 2], [3]]" and p1: "pushed 1 ?prog = [[1, 2], [3]]"
    by simp_all
  from NewMinhash_reproducible [OF r i j c0 c1 p0 p1] d show ?thesis
    using r i j c0 c1 p0 p1 by auto
qed

text \<open>
  Claim C3, as stated (\<^verbatim>\<open>Merge\<close> reports different seeds as a recoverable error
  rather than aborting), does not hold: \<^verbatim>\<open>Merge\<close> panics.
\<close>

theorem Merge_different_seed_counterexample:
  "seed \<lparr>mw = \<lparr>minimums = 0, h1 = \<lparr>nonce = [], fnv = 0\<rparr>, h2 = \<lparr>nonce = [], fnv = 1\<rparr>\<rparr>,
          seed = 1\<rparr> \<noteq>
   seed \<lparr>mw = \<lparr>minimums = 1, h1 = \<lparr>nonce = [], fnv = 2\<rparr>, h2 = \<lparr>nonce = [], fnv = 3\<rparr>\<rparr>,
          seed = 2\<rparr> \<and>
   Merge \<lparr>mw = \<lparr>minimums = 0, h1 = \<lparr>nonce = [], fnv = 0\<rparr>, h2 = \<lparr>nonce = [], fnv = 1\<rparr>\<rparr>,
          seed = 1\<rparr>
         \<lparr>mw = \<lparr>minimums = 1, h1 = \<lparr>nonce = [], fnv = 2\<rparr>, h2 = \<lparr>nonce = [], fnv = 3\<rparr>\<rparr>,
          seed = 2\<rparr>
         \<lparr>generators = [(), ()], hashObjects = [0, 0, 0, 0], slices = [[7], [9]]\<rparr> =
     Panicked ''Cannot merge Minhash with different seed''"
  by (simp add: Merge_def)

text \<open>
  Claim C3, amended: for every pair of sketches with different seeds,
  \<^verbatim>\<open>Jaccard\<close> reports the incompatibility to the caller as an error value, and
  \<^verbatim>\<open>Merge\<close> panics with the message "Cannot merge Minhash with different seed".
\<close>

theorem different_seed_Jaccard_error_Merge_panic:
  "seed m \<noteq> seed o' \<Longrightarrow>
   Jaccard m o' st = Returned (Inl ErrSeed) \<and>
   Merge m o' st = Panicked ''Cannot merge Minhash with different seed''"
  by (simp add: Jaccard_def Merge_def)

theorem different_seed_Jaccard_error_Merge_panic_witness:
  "seed \<lparr>mw = \<lparr>minimums = 0, h1 = \<lparr>nonce = [], fnv = 0\<rparr>, h2 = \<lparr>nonce = [], fnv = 1\<rparr>\<rparr>,
          seed = 1\<rparr> \<noteq>
   seed \<lparr>mw = \<lparr>minimums = 1, h1 = \<lparr>nonce = [], fnv = 2\<rparr>, h2 = \<lparr>nonce = [], fnv = 3\<rparr>\<rparr>,
          seed = 2\<rparr> \<and>
   Jaccard \<lparr>mw = \<lparr>minimums = 0, h1 = \<lparr>nonce = [], fnv = 0\<rparr>, h2 = \<lparr>nonce = [], fnv = 1\<rparr>\<rparr>,
          seed = 1\<rparr>
         \<lparr>mw = \<lparr>minimums = 1, h1 = \<lparr>nonce = [], fnv = 2\<rparr>, h2 = \<lparr>nonce = [], fnv = 3\<rparr>\<rparr>,
          seed = 2\<rparr>
         \<lparr>generators = [(), ()], hashObjects = [0, 0, 0, 0], slices = [[7], [9]]\<rparr> =
     Returned (Inl ErrSeed)"
  using different_seed_Jaccard_error_Merge_panic
    [of "\<lparr>mw = \<lparr>minimums = 0, h1 = \<lparr>nonce = [], fnv = 0\<rparr>, h2 = \<lparr>nonce = [], fnv = 1\<rparr>\<rparr>,
          seed = 1\<rparr>"
        "\<lparr>mw = \<lparr>minimums = 1, h1 = \<lparr>nonce = [], fnv = 2\<rparr>, h2 = \<lparr>nonce = [], fnv = 3\<rparr>\<rparr>,
          seed = 2\<rparr>"
        "\<lparr>generators = [(), ()], hashObjects = [0, 0, 0, 0], slices = [[7], [9]]\<rparr>"]
  by simp

section \<open>Properties of the LSH layer\<close>

lemma selectMin_in: "selectMin cost best cs \<in> set (best # cs)"
  by (induction cs arbitrary: best) (simp, fastforce)

lemma candidates_ok:
  "(k, l) \<in> set (candidates n) \<Longrightarrow> 1 \<le> k \<and> 1 \<le> l \<and> k * l \<le> n"
  by (auto simp: candidates_def Suc_leI div_greater_zero_iff)

text \<open>
  Claim C5: for every signature size \<open>n \<ge> 1\<close> and every threshold \<open>t\<close> in \<open>(0, 1]\<close>,
  the parameter optimizer returns a pair \<open>(k, l)\<close> with \<open>k \<ge> 1\<close>, \<open>l \<ge> 1\<close> and
  \<open>k * l \<le> n\<close>.
\<close>

theorem OptimalParams_bounds:
  "1 \<le> n \<Longrightarrow> 0 < t \<Longrightarrow> t \<le> 1 \<Longrightarrow>
   \<exists>k l. OptimalParams samples n t falsePositiveWeight falseNegativeWeight = Inr (k, l) \<and>
     1 \<le> k \<and> 1 \<le> l \<and> k * l \<le> n"
proof -
  assume n: "1 \<le> n"
  then obtain c cs where cs: "candidates n = c # cs"
    by (cases "candidates n") (auto simp: candidates_def)
  let ?r = "selectMin (weightedError samples t falsePositiveWeight falseNegativeWeight) c cs"
  have "?r \<in> set (candidates n)" unfolding cs by (rule selectMin_in)
  then have "1 \<le> fst ?r \<and> 1 \<le> snd ?r \<and> fst ?r * snd ?r \<le> n"
    using candidates_ok [of "fst ?r" "snd ?r" n] by simp
  moreover have "OptimalParams samples n t falsePositiveWeight falseNegativeWeight =
      Inr (fst ?r, snd ?r)"
    by (simp add: OptimalParams_def cs)
  ultimately show ?thesis by blast
qed

theorem OptimalParams_bounds_witness:
  "(1::nat) \<le> 8 \<and> (0::real) < 1 / 2 \<and> (1 / 2 :: real) \<le> 1 \<and>
   (\<exists>k l. OptimalParams 100 8 (1 / 2) (1 / 2) (1 / 2) = Inr (k, l) \<and>
      1 \<le> k \<and> 1 \<le> l \<and> k * l \<le> 8)"
  using OptimalParams_bounds [of 8 "1 / 2" 100 "1 / 2" "1 / 2"] by simp

lemma length_encodeValue:
  "bytesPerValue \<le> 8 \<Longrightarrow> length (encodeValue bytesPerValue v) = bytesPerValue"
  by (simp add: encodeValue_def length_PutUint64)

lemma length_hashKeyFuncGen:
  "bytesPerValue \<le> 8 \<Longrightarrow> length (hashKeyFuncGen bytesPerValue band) = length band * bytesPerValue"
  by (induction band) (simp_all add: hashKeyFuncGen_def length_encodeValue)

text \<open>
  Claim C6: for every band of \<open>k\<close> values and each supported width (2 bytes per value
  for the narrow variant, 8 for the wide one), the band key has exactly
  \<open>k * bytesPerValue\<close> bytes.
\<close>

theorem hashKeyFuncGen_length:
  "length band = k \<Longrightarrow> bytesPerValue = 2 \<or> bytesPerValue = 8 \<Longrightarrow>
   length (hashKeyFuncGen bytesPerValue band) = k * bytesPerValue"
  using length_hashKeyFuncGen [of bytesPerValue band] by auto

theorem hashKeyFuncGen_length_witness:
  "length [1, 2, 3 :: uint64] = 3 \<and> ((2::nat) = 2 \<or> (2::nat) = 8) \<and>
   length (hashKeyFuncGen 2 [1, 2, 3]) = 3 * 2 \<and> length (hashKeyFuncGen 8 [1, 2, 3]) = 3 * 8"
  using hashKeyFuncGen_length [of "[1, 2, 3]" 3 2] hashKeyFuncGen_length [of "[1, 2, 3]" 3 8]
  by simp

lemma deduplicate_distinct: "distinct result \<Longrightarrow> distinct (deduplicate result xs)"
  by (induction xs arbitrary: result) simp_all

lemma set_deduplicate: "set (deduplicate result xs) = set result \<union> set xs"
  by (induction xs arbitrary: result) auto

text \<open>
  Claim C8: for every built index and every query signature of at least \<open>k * l\<close>
  values, \<^verbatim>\<open>Query\<close> returns a list of identifiers in which none occurs twice.
\<close>

theorem Query_no_duplicates:
  "built idx \<Longrightarrow> params_k idx * params_l idx \<le> length sig \<Longrightarrow>
   \<exists>ids. Query idx sig = Inr ids \<and> distinct ids"
  by (simp add: Query_def deduplicate_distinct)


theorem Query_no_duplicates_witness:
  "built \<lparr>signatureSize = 2, threshold = 1 / 2, params_k = 1, params_l = 2,
          keyBytesPerValue = 2,
          hashTables = [[[0, 5] \<mapsto> [''sig2'', ''sig3'']], [[0, 6] \<mapsto> [''sig3'', ''sig2'']]],
          built = True\<rparr> \<and>
   Query \<lparr>signatureSize = 2, threshold = 1 / 2, params_k = 1, params_l = 2,
          keyBytesPerValue = 2,
          hashTables = [[[0, 5] \<mapsto> [''sig2'', ''sig3'']], [[0, 6] \<mapsto> [''sig3'', ''sig2'']]],
          built = True\<rparr>
     [0x0005000000000000, 0x0006000000000000] = Inr [''sig2'', ''sig3''] \<and>
   distinct [''sig2'', ''sig3'']"
proof -
  let ?idx = "\<lparr>signatureSize = 2, threshold = 1 / 2, params_k = 1, params_l = 2,
          keyBytesPerValue = 2,
          hashTables = [[[0, 5] \<mapsto> [''sig2'', ''sig3'']], [[0, 6 :: byte] \<mapsto> [''sig3'', ''sig2'']]],
          built = True\<rparr>"
  have q: "Query ?idx [0x0005000000000000, 0x0006000000000000] = Inr [''sig2'', ''sig3'']"
    by (simp add: Query_def hashKeys_def bands_def hashKeyFuncGen_def encodeValue_def
        PutUint64_def bucket_def upt_rec)
  from Query_no_duplicates [of ?idx "[0x0005000000000000, 0x0006000000000000]"] q
  show ?thesis by simp
qed

end
